theory Spec2Isabelle
  imports Main "HOL-Library.Multiset"
begin

section \<open>Data model of \<^verbatim>\<open>medcat/utils/regression/targeting.py\<close>\<close>

text \<open>
  Python values are modelled as follows.
  \<^item> A \<^verbatim>\<open>str\<close> is a \<^typ>\<open>string\<close>.
  \<^item> A \<^verbatim>\<open>Set[str]\<close> is a \<^typ>\<open>string list\<close>: the list is the order in which the
    set is iterated, which Python leaves unspecified, so every theorem below quantifies
    over all such lists. Membership is \<open>x \<in> set xs\<close>.
  \<^item> A \<^verbatim>\<open>dict\<close> is an association list in insertion order; a key is looked up
    with \<^const>\<open>map_of\<close>, and a subscript on a missing key raises \<^verbatim>\<open>KeyError\<close>.
  \<^item> A generator is the pair of the items it yields when it is drained and the exception
    that ends it, if any: an exception raised part-way leaves the items yielded before it.
\<close>

datatype error =
    KeyError string
  | ValueError
  | ValidationError
  | UnboundLocalError
  | ConfigurationError

type_synonym ('k, 'v) dict = "('k \<times> 'v) list"

type_synonym 'a gen = "'a list \<times> error option"

definition dict_contains :: "('k, 'v) dict \<Rightarrow> 'k \<Rightarrow> bool" where
  "dict_contains d k = (map_of d k \<noteq> None)"

definition dict_getitem :: "(string, 'v) dict \<Rightarrow> string \<Rightarrow> error + 'v" where
  "dict_getitem d k = (case map_of d k of None \<Rightarrow> Inl (KeyError k) | Some v \<Rightarrow> Inr v)"

definition dict_setitem :: "('k, 'v) dict \<Rightarrow> 'k \<Rightarrow> 'v \<Rightarrow> ('k, 'v) dict" where
  "dict_setitem d k v = (if dict_contains d k then map (\<lambda>(k', v'). if k' = k then (k', v) else (k', v')) d else d @ [(k, v)])"

text \<open>\<^verbatim>\<open>yield from g\<close> followed by the rest of the body: the rest runs only when \<open>g\<close>
  ends without an exception.\<close>

definition gen_then :: "'a gen \<Rightarrow> 'a gen \<Rightarrow> 'a gen" where
  "gen_then g h = (case g of (xs, Some e) \<Rightarrow> (xs, Some e) | (xs, None) \<Rightarrow> (xs @ fst h, snd h))"

text \<open>\<^verbatim>\<open>for x in xs: <body x>\<close> where the body is itself a generator.\<close>

fun gen_for :: "'b list \<Rightarrow> ('b \<Rightarrow> 'a gen) \<Rightarrow> 'a gen" where
  "gen_for [] body = ([], None)"
| "gen_for (x # xs) body = gen_then (body x) (gen_for xs body)"

subsection \<open>TargetInfo\<close>

text \<open>The fields of a \<^verbatim>\<open>TargetInfo\<close> object.\<close>

record TargetInfo =
  cui :: string
  val :: string

definition TargetInfo_init :: "string \<Rightarrow> string \<Rightarrow> TargetInfo" where
  "TargetInfo_init c v = \<lparr>cui = c, val = v\<rparr>"

subsection \<open>TranslationLayer\<close>

record TranslationLayer =
  cui2names :: "(string, string list) dict"
  name2cuis :: "(string, string list) dict"
  cui2type_ids :: "(string, string list) dict"
  cui2children :: "(string, string list) dict"

text \<open>The constructor stores the four dicts and gives every key of \<open>cui2names\<close> that
  \<open>cui2children\<close> lacks an empty set of children.\<close>

definition TranslationLayer_init ::
  "(string, string list) dict \<Rightarrow> (string, string list) dict \<Rightarrow> (string, string list) dict
    \<Rightarrow> (string, string list) dict \<Rightarrow> TranslationLayer" where
  "TranslationLayer_init c2n n2c c2t c2c =
     \<lparr>cui2names = c2n, name2cuis = n2c, cui2type_ids = c2t,
      cui2children = foldl (\<lambda>d c. if \<not> dict_contains d c then dict_setitem d c [] else d) c2c (map fst c2n)\<rparr>"

definition targets_for :: "TranslationLayer \<Rightarrow> string \<Rightarrow> TargetInfo gen" where
  "targets_for tr c =
     (case dict_getitem (cui2names tr) c of
        Inl e \<Rightarrow> ([], Some e)
      | Inr names \<Rightarrow> (map (\<lambda>name. TargetInfo_init c name) names, None))"

definition all_targets :: "TranslationLayer \<Rightarrow> TargetInfo gen" where
  "all_targets tr =
     (concat (map (\<lambda>(c, names). map (\<lambda>name. TargetInfo_init c name) names) (cui2names tr)), None)"

function has_child_of :: "TranslationLayer \<Rightarrow> string list \<Rightarrow> string \<Rightarrow> int \<Rightarrow> bool" where
  "has_child_of tr found_cuis c depth =
     (case map_of (cui2children tr) c of
        None \<Rightarrow> False
      | Some children \<Rightarrow>
          if list_ex (\<lambda>child. child \<in> set found_cuis) children then True
          else if depth > 1
            then list_ex (\<lambda>child. has_child_of tr found_cuis child (depth - 1)) children
            else False)"
  by pat_completeness auto
termination
  by (relation "measure (\<lambda>(tr, found_cuis, c, depth). nat depth)") auto

definition has_parent_of :: "TranslationLayer \<Rightarrow> string list \<Rightarrow> string \<Rightarrow> int \<Rightarrow> bool" where
  "has_parent_of tr found_cuis c depth =
     list_ex (\<lambda>found_cui. has_child_of tr [c] found_cui depth) found_cuis"

subsection \<open>Enums and loose matching of their names\<close>

datatype FilterStrategy = ALL_strategy | ANY_strategy

datatype FilterType = TYPE_ID | CUI | NAME | CUI_AND_CHILDREN

fun FilterStrategy_name :: "FilterStrategy \<Rightarrow> string" where
  "FilterStrategy_name ALL_strategy = ''ALL''"
| "FilterStrategy_name ANY_strategy = ''ANY''"

fun FilterType_name :: "FilterType \<Rightarrow> string" where
  "FilterType_name TYPE_ID = ''TYPE_ID''"
| "FilterType_name CUI = ''CUI''"
| "FilterType_name NAME = ''NAME''"
| "FilterType_name CUI_AND_CHILDREN = ''CUI_AND_CHILDREN''"

text \<open>\<^verbatim>\<open>str.lower\<close> on the ASCII letters; a \<^typ>\<open>char\<close> is a byte, and bytes outside
  \<open>A\<close>..\<open>Z\<close> are left as they are.\<close>

definition lower_char :: "char \<Rightarrow> char" where
  "lower_char c =
     (case map_of (zip ''ABCDEFGHIJKLMNOPQRSTUVWXYZ'' ''abcdefghijklmnopqrstuvwxyz'') c of
        Some l \<Rightarrow> l
      | None \<Rightarrow> c)"

definition lower :: "string \<Rightarrow> string" where
  "lower s = map lower_char s"

definition is_space :: "char \<Rightarrow> bool" where
  "is_space c = (c \<in> set [CHR 0x09, CHR 0x0A, CHR 0x0B, CHR 0x0C, CHR 0x0D, CHR '' ''])"

definition normalise :: "string \<Rightarrow> string" where
  "normalise s = lower (filter (\<lambda>c. \<not> is_space c) s)"

text \<open>Modelled from the spec: \<^verbatim>\<open>loosely_match_enum\<close> of
  \<^verbatim>\<open>medcat/utils/regression/utils.py\<close> is not among the source files. The spec gives it as
  a case-insensitive, whitespace-normalised comparison of the input with the names of the
  enum's members, which fails with a \<^verbatim>\<open>ConfigurationError\<close> when no member matches.\<close>

fun loosely_match_enum :: "('e \<times> string) list \<Rightarrow> string \<Rightarrow> error + 'e" where
  "loosely_match_enum [] name = Inl ConfigurationError"
| "loosely_match_enum ((e, n) # members) name =
     (if normalise n = normalise name then Inr e else loosely_match_enum members name)"

definition FilterStrategy_match_str :: "string \<Rightarrow> error + FilterStrategy" where
  "FilterStrategy_match_str name =
     loosely_match_enum (map (\<lambda>e. (e, FilterStrategy_name e)) [ALL_strategy, ANY_strategy]) name"

definition FilterType_match_str :: "string \<Rightarrow> error + FilterType" where
  "FilterType_match_str name =
     loosely_match_enum (map (\<lambda>e. (e, FilterType_name e)) [TYPE_ID, CUI, NAME, CUI_AND_CHILDREN]) name"

subsection \<open>Configuration values\<close>

text \<open>The values a filter is built from and serialised to: a string, a list of strings,
  an integer (the depth) or a dict of such values.\<close>

datatype pyval =
    PStr string
  | PList "string list"
  | PInt int
  | PDict "(string \<times> pyval) list"

subsection \<open>TypedFilter and CUIWithChildFilter\<close>

text \<open>The two classes are the two constructors; \<^verbatim>\<open>CUIWithChildFilter\<close> inherits
  \<open>type\<close> and \<open>values\<close> and adds \<open>delegate\<close> and \<open>depth\<close>.\<close>

datatype TypedFilter =
    TypedFilter (type: FilterType) (values': "string list")
  | CUIWithChildFilter (type: FilterType) (delegate: TypedFilter) (depth: int) (values': "string list")

text \<open>The constructors are pydantic's: they check the declared field types and nothing
  else (the classes declare no validator). \<open>values: List[str]\<close> takes a list of strings and
  \<open>depth: int\<close> an integer; pydantic's coercion of other values into these types is not
  modelled, they are refused.\<close>

definition TypedFilter_init :: "FilterType \<Rightarrow> pyval \<Rightarrow> error + TypedFilter" where
  "TypedFilter_init t vals = (case vals of PList vs \<Rightarrow> Inr (TypedFilter t vs) | _ \<Rightarrow> Inl ValidationError)"

definition CUIWithChildFilter_init :: "FilterType \<Rightarrow> TypedFilter \<Rightarrow> pyval \<Rightarrow> error + TypedFilter" where
  "CUIWithChildFilter_init t d n =
     (case n of PInt k \<Rightarrow> Inr (CUIWithChildFilter t d k []) | _ \<Rightarrow> Inl ValidationError)"

text \<open>The three loops of \<^verbatim>\<open>TypedFilter.get_applicable_targets\<close>; a \<^verbatim>\<open>TargetInfo\<close> is
  yielded once for every type id of its concept that is among the values.\<close>

definition TypedFilter_get_applicable_targets ::
  "FilterType \<Rightarrow> string list \<Rightarrow> TranslationLayer \<Rightarrow> TargetInfo list \<Rightarrow> TargetInfo list" where
  "TypedFilter_get_applicable_targets t vs tr in_gen =
     (if t = CUI \<or> t = CUI_AND_CHILDREN then filter (\<lambda>ti. cui ti \<in> set vs) in_gen else []) @
     (if t = NAME then filter (\<lambda>ti. val ti \<in> set vs) in_gen else []) @
     (if t = TYPE_ID
      then concat (map (\<lambda>ti.
             let tids = (case map_of (cui2type_ids tr) (cui ti) of Some tids \<Rightarrow> tids | None \<Rightarrow> [])
             in map (\<lambda>tid. ti) (filter (\<lambda>tid. tid \<in> set vs) tids)) in_gen)
      else [])"

text \<open>\<^verbatim>\<open>CUIWithChildFilter.get_children_of\<close>, a method of the hierarchical filter
  \<open>self\<close>, of which it reads the depth.\<close>

function get_children_of :: "TypedFilter \<Rightarrow> TranslationLayer \<Rightarrow> string \<Rightarrow> int \<Rightarrow> TargetInfo gen" where
  "get_children_of self tr c cur_depth =
     (case dict_getitem (cui2children tr) c of
        Inl e \<Rightarrow> ([], Some e)
      | Inr children \<Rightarrow>
          gen_for children (\<lambda>child.
            gen_then (targets_for tr child)
              (if cur_depth < depth self then get_children_of self tr child (cur_depth + 1)
               else ([], None))))"
  by pat_completeness auto
termination
  by (relation "measure (\<lambda>(self, tr, c, cur_depth). nat (depth self - cur_depth))") auto

fun get_applicable_targets :: "TypedFilter \<Rightarrow> TranslationLayer \<Rightarrow> TargetInfo list \<Rightarrow> TargetInfo gen" where
  "get_applicable_targets (TypedFilter t vs) tr in_gen =
     (TypedFilter_get_applicable_targets t vs tr in_gen, None)"
| "get_applicable_targets (CUIWithChildFilter t d n vs) tr in_gen =
     (case get_applicable_targets d tr in_gen of
        (tis, e) \<Rightarrow>
          gen_then
            (gen_for tis (\<lambda>ti.
               gen_then ([ti], None) (get_children_of (CUIWithChildFilter t d n vs) tr (cui ti) 1)))
            ([], e))"

lemma size_map_of_pyval:
  "map_of d k = Some v \<Longrightarrow> size v < Suc (size_list (size_prod (\<lambda>_. 0) size) d)"
  by (induction d) (auto split: if_splits)

function one_from_input :: "string \<Rightarrow> pyval \<Rightarrow> error + TypedFilter" where
  "one_from_input target_type vals =
     (case FilterType_match_str target_type of
        Inl e \<Rightarrow> Inl e
      | Inr t_type \<Rightarrow>
          (case vals of
             PDict d \<Rightarrow>
               if t_type \<noteq> CUI_AND_CHILDREN then Inl ValueError
               else (case dict_getitem d ''depth'' of
                  Inl e \<Rightarrow> Inl e
                | Inr dep \<Rightarrow>
                    (case map_of d ''cui'' of
                       None \<Rightarrow> Inl (KeyError ''cui'')
                     | Some c \<Rightarrow>
                         (case one_from_input target_type c of
                            Inl e \<Rightarrow> Inl e
                          | Inr deleg \<Rightarrow>
                              if t_type = CUI_AND_CHILDREN
                              then CUIWithChildFilter_init t_type deleg dep
                              else Inl UnboundLocalError)))
           | PStr s \<Rightarrow> TypedFilter_init t_type (PList [s])
           | _ \<Rightarrow> TypedFilter_init t_type vals))"
  by pat_completeness auto
termination
  by (relation "measure (\<lambda>(target_type, vals). size vals)") (auto dest: size_map_of_pyval)

fun to_dict :: "TypedFilter \<Rightarrow> (string, pyval) dict" where
  "to_dict (TypedFilter t vs) = [(FilterType_name t, PList vs)]"
| "to_dict (CUIWithChildFilter t d n vs) =
     [(FilterType_name t, PDict [(''depth'', PInt n), (''cui'', PList (values' d))])]"

fun from_dict :: "(string, pyval) dict \<Rightarrow> error + TypedFilter list" where
  "from_dict [] = Inr []"
| "from_dict ((target_type, vals) # rest) =
     (case one_from_input target_type vals of
        Inl e \<Rightarrow> Inl e
      | Inr filt \<Rightarrow> (case from_dict rest of Inl e \<Rightarrow> Inl e | Inr parsed \<Rightarrow> Inr (filt # parsed)))"

subsection \<open>FilterOptions\<close>

record FilterOptions =
  strategy :: FilterStrategy
  onlyprefnames :: bool

definition str_of_bool :: "bool \<Rightarrow> string" where
  "str_of_bool b = (if b then ''True'' else ''False'')"

definition FilterOptions_to_dict :: "FilterOptions \<Rightarrow> (string, string) dict" where
  "FilterOptions_to_dict opts =
     [(''strategy'', FilterStrategy_name (strategy opts)),
      (''prefname-only'', str_of_bool (onlyprefnames opts))]"

definition FilterOptions_from_dict :: "(string, string) dict \<Rightarrow> error + FilterOptions" where
  "FilterOptions_from_dict section =
     (case (case map_of section ''strategy'' of
              Some s \<Rightarrow> FilterStrategy_match_str s
            | None \<Rightarrow> Inr ALL_strategy) of
        Inl e \<Rightarrow> Inl e
      | Inr strat \<Rightarrow>
          Inr \<lparr>strategy = strat,
               onlyprefnames = (case map_of section ''prefname-only'' of
                                  Some s \<Rightarrow> lower s = ''true''
                                | None \<Rightarrow> False)\<rparr>)"

subsection \<open>Equivalence of filters\<close>

text \<open>The equivalence the round trip of the serialised form is stated with: the same class,
  kind and values, and for hierarchical filters the same depth and the same values of the
  delegate.\<close>

definition same_filter :: "TypedFilter \<Rightarrow> TypedFilter \<Rightarrow> bool" where
  "same_filter f g =
     (type f = type g \<and> values' f = values' g \<and>
      (case f of
         TypedFilter _ _ \<Rightarrow> (case g of TypedFilter _ _ \<Rightarrow> True | CUIWithChildFilter _ _ _ _ \<Rightarrow> False)
       | CUIWithChildFilter _ d n _ \<Rightarrow>
           (case g of
              TypedFilter _ _ \<Rightarrow> False
            | CUIWithChildFilter _ d' n' _ \<Rightarrow> n = n' \<and> values' d = values' d')))"

subsection \<open>Descendants within a number of hops\<close>

text \<open>The notions the depth bound of the hierarchical filter is stated with: the children
  and the names a table gives for a concept (none when it has no entry), the concepts
  reached from \<open>c\<close> in one to \<open>n\<close> steps along the children table, and the targets
  (concept, name) of a set of concepts.\<close>

definition children_of :: "TranslationLayer \<Rightarrow> string \<Rightarrow> string list" where
  "children_of tr c = (case map_of (cui2children tr) c of None \<Rightarrow> [] | Some children \<Rightarrow> children)"

definition names_of :: "TranslationLayer \<Rightarrow> string \<Rightarrow> string list" where
  "names_of tr c = (case map_of (cui2names tr) c of None \<Rightarrow> [] | Some names \<Rightarrow> names)"

fun descendants :: "TranslationLayer \<Rightarrow> string \<Rightarrow> nat \<Rightarrow> string set" where
  "descendants tr c 0 = {}"
| "descendants tr c (Suc n) =
     set (children_of tr c) \<union> (\<Union>child \<in> set (children_of tr c). descendants tr child n)"

definition targets_of :: "TranslationLayer \<Rightarrow> string set \<Rightarrow> TargetInfo set" where
  "targets_of tr S = (\<Union>c \<in> S. (\<lambda>name. \<lparr>cui = c, val = name\<rparr>) ` set (names_of tr c))"

subsection \<open>Identity of \<^verbatim>\<open>TargetInfo\<close> objects\<close>

text \<open>\<^verbatim>\<open>TargetInfo\<close> is a plain class that defines \<^verbatim>\<open>__init__\<close>, \<^verbatim>\<open>__str__\<close> and
  \<^verbatim>\<open>__repr__\<close> only, so \<^verbatim>\<open>==\<close> on its instances is the default of \<^verbatim>\<open>object\<close>: identity.
  An instance is a reference into a store of objects; the constructor allocates a new
  object, and two references are equal when they are the same reference.\<close>

type_synonym ref = nat

type_synonym store = "TargetInfo list"

definition TargetInfo_new :: "store \<Rightarrow> string \<Rightarrow> string \<Rightarrow> ref \<times> store" where
  "TargetInfo_new h c v = (length h, h @ [TargetInfo_init c v])"

definition deref :: "store \<Rightarrow> ref \<Rightarrow> TargetInfo" where
  "deref h r = h ! r"

definition TargetInfo_eq :: "ref \<Rightarrow> ref \<Rightarrow> bool" where
  "TargetInfo_eq r1 r2 = (r1 = r2)"

subsection \<open>An example ontology\<close>

text \<open>Three concepts in a chain, \<open>root\<close> the parent of \<open>mid\<close> and \<open>mid\<close> the parent of
  \<open>leaf\<close>, each with one name.\<close>

definition three_level :: TranslationLayer where
  "three_level = TranslationLayer_init
     [(''root'', [''r'']), (''mid'', [''m'']), (''leaf'', [''l''])] [] []
     [(''root'', [''mid'']), (''mid'', [''leaf''])]"

text \<open>One concept with three type ids.\<close>

definition typed_layer :: TranslationLayer where
  "typed_layer = TranslationLayer_init [(''C1'', [''fever''])] [] [(''C1'', [''T1'', ''T2'', ''T3''])] []"

text \<open>The ontology of the spec's example: \<open>A\<close> with the children \<open>B\<close> and \<open>C\<close>, iterated in
  the order \<open>ch\<close>, and one name for each concept.\<close>

definition abc_layer :: "string list \<Rightarrow> TranslationLayer" where
  "abc_layer ch = TranslationLayer_init
     [(''A'', [''a'']), (''B'', [''b'']), (''C'', [''c''])] [] [] [(''A'', ch)]"

text \<open>A children set that lists a concept, \<open>X\<close>, which has no names and no children of its
  own.\<close>

definition dangling_layer :: TranslationLayer where
  "dangling_layer = TranslationLayer_init
     [(''A'', [''a'']), (''B'', [''b''])] [] [] [(''A'', [''B'', ''X''])]"

section \<open>Properties\<close>

declare has_child_of.simps [simp del]

lemma three_level_names:
  "cui2names three_level = [(''root'', [''r'']), (''mid'', [''m'']), (''leaf'', [''l''])]"
  by (simp add: three_level_def TranslationLayer_init_def)

lemma three_level_children:
  "cui2children three_level = [(''root'', [''mid'']), (''mid'', [''leaf'']), (''leaf'', [])]"
  by (simp add: three_level_def TranslationLayer_init_def dict_contains_def dict_setitem_def)

subsection \<open>\<^verbatim>\<open>has_child_of\<close> and \<^verbatim>\<open>has_parent_of\<close>\<close>

lemma has_child_of_None:
  "map_of (cui2children tr) c = None \<Longrightarrow> has_child_of tr ids c d = False"
  by (subst has_child_of.simps) simp

lemma has_child_of_Some:
  "map_of (cui2children tr) c = Some children \<Longrightarrow>
     has_child_of tr ids c d =
       ((\<exists>x \<in> set children. x \<in> set ids) \<or>
        (d > 1 \<and> (\<exists>x \<in> set children. has_child_of tr ids x (d - 1))))"
  by (subst has_child_of.simps) (auto simp: list_ex_iff)

lemma has_child_of_direct:
  "has_child_of tr ids c 1 \<longleftrightarrow>
      (\<exists>children child. map_of (cui2children tr) c = Some children \<and>
         child \<in> set children \<and> child \<in> set ids)"
proof (cases "map_of (cui2children tr) c")
  case None
  then show ?thesis by (simp add: has_child_of_None)
next
  case (Some children)
  then show ?thesis by (auto simp: has_child_of_Some)
qed

text \<open>
  Claim C6. With depth 1, \<^verbatim>\<open>has_child_of(ids, c)\<close> is true exactly when some direct child
  of \<open>c\<close> is in \<open>ids\<close>; with depth 2, exactly when some child or grandchild of \<open>c\<close> is in
  \<open>ids\<close>; and when \<open>c\<close> has no entry in the children table it returns false, at any depth.
  The function is total, so it never raises.
\<close>

theorem has_child_of_depth:
  "(has_child_of tr ids c 1 \<longleftrightarrow>
      (\<exists>children child. map_of (cui2children tr) c = Some children \<and>
         child \<in> set children \<and> child \<in> set ids)) \<and>
   (has_child_of tr ids c 2 \<longleftrightarrow>
      (\<exists>children child. map_of (cui2children tr) c = Some children \<and> child \<in> set children \<and>
         (child \<in> set ids \<or>
          (\<exists>grandchildren grandchild. map_of (cui2children tr) child = Some grandchildren \<and>
             grandchild \<in> set grandchildren \<and> grandchild \<in> set ids)))) \<and>
   (map_of (cui2children tr) c = None \<longrightarrow> \<not> has_child_of tr ids c d)"
proof (intro conjI)
  show "has_child_of tr ids c 1 \<longleftrightarrow>
      (\<exists>children child. map_of (cui2children tr) c = Some children \<and>
         child \<in> set children \<and> child \<in> set ids)"
    by (rule has_child_of_direct)
  show "has_child_of tr ids c 2 \<longleftrightarrow>
      (\<exists>children child. map_of (cui2children tr) c = Some children \<and> child \<in> set children \<and>
         (child \<in> set ids \<or>
          (\<exists>grandchildren grandchild. map_of (cui2children tr) child = Some grandchildren \<and>
             grandchild \<in> set grandchildren \<and> grandchild \<in> set ids)))"
  proof (cases "map_of (cui2children tr) c")
    case None
    then show ?thesis by (simp add: has_child_of_None)
  next
    case (Some children)
    have "has_child_of tr ids c 2 \<longleftrightarrow>
        (\<exists>x \<in> set children. x \<in> set ids) \<or> (\<exists>x \<in> set children. has_child_of tr ids x 1)"
      using Some by (simp add: has_child_of_Some)
    then show ?thesis using Some by (simp add: has_child_of_direct) blast
  qed
  show "map_of (cui2children tr) c = None \<longrightarrow> \<not> has_child_of tr ids c d"
    by (simp add: has_child_of_None)
qed

theorem has_child_of_depth_witness:
  "\<not> has_child_of three_level [''leaf''] ''root'' 1 \<and>
   has_child_of three_level [''leaf''] ''root'' 2 \<and>
   map_of (cui2children three_level) ''other'' = None \<and>
   \<not> has_child_of three_level [''leaf''] ''other'' 2"
  using has_child_of_depth [of three_level "[''leaf'']" "''root''" 2]
    has_child_of_depth [of three_level "[''leaf'']" "''other''" 2]
  by (simp add: three_level_children)

text \<open>
  Claim C1, as the spec states it, asks \<^verbatim>\<open>has_parent_of({leaf}, root, depth=2)\<close> to be true
  in a hierarchy root \<rightarrow> mid \<rightarrow> leaf. The code looks for \<open>root\<close> below \<open>leaf\<close> there, and
  finds nothing in the chain: the call is false.
\<close>

theorem has_parent_of_leaf_root_counterexample:
  "map_of (cui2children three_level) ''root'' = Some [''mid''] \<and>
   map_of (cui2children three_level) ''mid'' = Some [''leaf''] \<and>
   \<not> has_parent_of three_level [''leaf''] ''root'' 2"
  by (simp add: three_level_children has_parent_of_def has_child_of_Some has_child_of_None)

text \<open>
  Claim C1, amended. \<^verbatim>\<open>has_parent_of(ids, c, depth)\<close> is true exactly when some id in
  \<open>ids\<close> has \<open>c\<close> as a descendant within \<open>depth\<close> hops, that is when
  \<^verbatim>\<open>has_child_of({c}, id, depth)\<close> holds for some \<open>id\<close> in \<open>ids\<close>. So in every hierarchy
  with root \<rightarrow> mid \<rightarrow> leaf in the children table it is
  \<^verbatim>\<open>has_parent_of({root}, leaf, depth=2)\<close> that is true: the candidates are the ancestors
  and the concept is the descendant.
\<close>

theorem has_parent_of_ancestor:
  "(has_parent_of tr ids c d \<longleftrightarrow> (\<exists>i. i \<in> set ids \<and> has_child_of tr [c] i d)) \<and>
   (map_of (cui2children tr) root = Some rc \<and> mid \<in> set rc \<and>
    map_of (cui2children tr) mid = Some mc \<and> leaf \<in> set mc
      \<longrightarrow> has_parent_of tr [root] leaf 2)"
proof (intro conjI impI)
  show "has_parent_of tr ids c d \<longleftrightarrow> (\<exists>i. i \<in> set ids \<and> has_child_of tr [c] i d)"
    by (auto simp: has_parent_of_def list_ex_iff)
next
  assume h: "map_of (cui2children tr) root = Some rc \<and> mid \<in> set rc \<and>
    map_of (cui2children tr) mid = Some mc \<and> leaf \<in> set mc"
  then have "has_child_of tr [leaf] mid 1"
    by (auto simp: has_child_of_Some)
  with h have "has_child_of tr [leaf] root 2"
    by (auto simp: has_child_of_Some [of tr root rc])
  then show "has_parent_of tr [root] leaf 2"
    by (simp add: has_parent_of_def)
qed

theorem has_parent_of_ancestor_witness:
  "map_of (cui2children three_level) ''root'' = Some [''mid''] \<and> ''mid'' \<in> set [''mid''] \<and>
   map_of (cui2children three_level) ''mid'' = Some [''leaf''] \<and> ''leaf'' \<in> set [''leaf''] \<and>
   has_parent_of three_level [''root''] ''leaf'' 2"
  using has_parent_of_ancestor [of three_level "[]" "''x''" 0 "''root''" "[''mid'']" "''mid''"
      "[''leaf'']" "''leaf''"]
  by (simp add: three_level_children)

subsection \<open>\<^verbatim>\<open>targets_for\<close>\<close>

text \<open>
  Claim C8. For a concept id \<open>c\<close> in the names table, \<^verbatim>\<open>targets_for(c)\<close> yields one
  \<^verbatim>\<open>TargetInfo\<close> for each name registered under \<open>c\<close>, in the order of the names, and ends
  normally. For a concept id that is not in the names table it yields nothing and ends
  with the \<^verbatim>\<open>KeyError\<close> of the failed lookup (the spec's \<^verbatim>\<open>NotFoundError\<close>).
\<close>

theorem targets_for_spec:
  "(map_of (cui2names tr) c = Some names \<longrightarrow>
      targets_for tr c = (map (\<lambda>name. \<lparr>cui = c, val = name\<rparr>) names, None)) \<and>
   (map_of (cui2names tr) c = None \<longrightarrow> targets_for tr c = ([], Some (KeyError c)))"
  by (simp add: targets_for_def dict_getitem_def TargetInfo_init_def)

theorem targets_for_spec_witness:
  "map_of (cui2names three_level) ''mid'' = Some [''m''] \<and>
   targets_for three_level ''mid'' = ([\<lparr>cui = ''mid'', val = ''m''\<rparr>], None) \<and>
   map_of (cui2names three_level) ''other'' = None \<and>
   targets_for three_level ''other'' = ([], Some (KeyError ''other''))"
  using targets_for_spec [of three_level "''mid''" "[''m'']"]
    targets_for_spec [of three_level "''other''" "[]"]
  by (simp add: three_level_names)

subsection \<open>Construction of filters\<close>

declare one_from_input.simps [simp del]

lemma FilterType_match_str_name: "FilterType_match_str (FilterType_name t) = Inr t"
  by (cases t) (simp_all add: FilterType_match_str_def normalise_def lower_def lower_char_def is_space_def)

lemma FilterStrategy_match_str_name: "FilterStrategy_match_str (FilterStrategy_name s) = Inr s"
  by (cases s) (simp_all add: FilterStrategy_match_str_def normalise_def lower_def lower_char_def is_space_def)

lemma one_from_input_no_match:
  "FilterType_match_str tt = Inl e \<Longrightarrow> one_from_input tt v = Inl e"
  by (subst one_from_input.simps) simp

lemma one_from_input_PStr:
  "FilterType_match_str tt = Inr t \<Longrightarrow> one_from_input tt (PStr s) = Inr (TypedFilter t [s])"
  by (subst one_from_input.simps) (simp add: TypedFilter_init_def)

lemma one_from_input_PList:
  "FilterType_match_str tt = Inr t \<Longrightarrow> one_from_input tt (PList vs) = Inr (TypedFilter t vs)"
  by (subst one_from_input.simps) (simp add: TypedFilter_init_def)

lemma one_from_input_PDict_other:
  "FilterType_match_str tt = Inr t \<Longrightarrow> t \<noteq> CUI_AND_CHILDREN \<Longrightarrow>
     one_from_input tt (PDict d) = Inl ValueError"
  by (subst one_from_input.simps) simp

lemma one_from_input_PDict:
  "FilterType_match_str tt = Inr CUI_AND_CHILDREN \<Longrightarrow>
     one_from_input tt (PDict d) =
       (case dict_getitem d ''depth'' of
          Inl e \<Rightarrow> Inl e
        | Inr dep \<Rightarrow>
            (case map_of d ''cui'' of
               None \<Rightarrow> Inl (KeyError ''cui'')
             | Some c \<Rightarrow>
                 (case one_from_input tt c of
                    Inl e \<Rightarrow> Inl e
                  | Inr deleg \<Rightarrow> CUIWithChildFilter_init CUI_AND_CHILDREN deleg dep)))"
  by (subst one_from_input.simps) (simp split: sum.splits option.splits)

lemma one_from_input_type:
  "one_from_input tt v = Inr f \<Longrightarrow> FilterType_match_str tt = Inr (type f)"
proof (cases "FilterType_match_str tt")
  case (Inl e)
  then show "one_from_input tt v = Inr f \<Longrightarrow> ?thesis" by (simp add: one_from_input_no_match)
next
  case (Inr t)
  assume r: "one_from_input tt v = Inr f"
  show ?thesis
  proof (cases v)
    case (PStr s) with r Inr show ?thesis by (auto simp: one_from_input_PStr)
  next
    case (PList vs) with r Inr show ?thesis by (auto simp: one_from_input_PList)
  next
    case (PInt k) with r Inr show ?thesis
      by (subst (asm) one_from_input.simps) (simp add: TypedFilter_init_def)
  next
    case (PDict d)
    show ?thesis
    proof (cases "t = CUI_AND_CHILDREN")
      case False with r Inr PDict show ?thesis by (simp add: one_from_input_PDict_other)
    next
      case True with r Inr PDict show ?thesis
        by (auto simp: one_from_input_PDict CUIWithChildFilter_init_def split: sum.splits option.splits pyval.splits)
    qed
  qed
qed

lemma one_from_input_PDict_shape:
  assumes "one_from_input tt (PDict d) = Inr f"
  shows "\<exists>dl n. f = CUIWithChildFilter CUI_AND_CHILDREN dl n [] \<and> type dl = CUI_AND_CHILDREN"
proof -
  from assms have m: "FilterType_match_str tt = Inr (type f)" by (rule one_from_input_type)
  have t: "type f = CUI_AND_CHILDREN"
  proof (rule ccontr)
    assume "type f \<noteq> CUI_AND_CHILDREN"
    with m have "one_from_input tt (PDict d) = Inl ValueError" by (rule one_from_input_PDict_other)
    with assms show False by simp
  qed
  with m have m': "FilterType_match_str tt = Inr CUI_AND_CHILDREN" by simp
  from assms obtain dep c dl where
    c: "map_of d ''cui'' = Some c" and dl: "one_from_input tt c = Inr dl"
    and f: "CUIWithChildFilter_init CUI_AND_CHILDREN dl dep = Inr f"
    by (auto simp: one_from_input_PDict [OF m'] split: sum.splits option.splits)
  from dl have "FilterType_match_str tt = Inr (type dl)" by (rule one_from_input_type)
  with m' have "type dl = CUI_AND_CHILDREN" by simp
  with f show ?thesis by (auto simp: CUIWithChildFilter_init_def split: pyval.splits)
qed


text \<open>
  Claim C9. \<^verbatim>\<open>one_from_input\<close> wraps a string into the one-element list of values,
  takes a list of values as it is, and refuses a dict that comes with a kind other than
  \<^verbatim>\<open>CUI_AND_CHILDREN\<close> with a \<^verbatim>\<open>ValueError\<close> (the spec's \<^verbatim>\<open>ConfigurationError\<close>).
  Construction reads no ontology, so the error comes before any evaluation.
\<close>

theorem one_from_input_values:
  "(one_from_input tt (PStr s) = Inr f \<longrightarrow> values' f = [s]) \<and>
   (one_from_input tt (PList vs) = Inr g \<longrightarrow> values' g = vs) \<and>
   (FilterType_match_str tt = Inr t \<longrightarrow>
      one_from_input tt (PStr s) = Inr (TypedFilter t [s]) \<and>
      one_from_input tt (PList vs) = Inr (TypedFilter t vs)) \<and>
   (FilterType_match_str tt = Inr t \<and> t \<noteq> CUI_AND_CHILDREN \<longrightarrow>
      one_from_input tt (PDict d) = Inl ValueError)"
proof (intro conjI impI)
  assume r: "one_from_input tt (PStr s) = Inr f"
  then obtain k where "FilterType_match_str tt = Inr k"
    using one_from_input_type by blast
  with r have "f = TypedFilter k [s]" by (simp add: one_from_input_PStr)
  then show "values' f = [s]" by simp
next
  assume r: "one_from_input tt (PList vs) = Inr g"
  then obtain k where "FilterType_match_str tt = Inr k"
    using one_from_input_type by blast
  with r have "g = TypedFilter k vs" by (simp add: one_from_input_PList)
  then show "values' g = vs" by simp
next
  assume "FilterType_match_str tt = Inr t"
  then show "one_from_input tt (PStr s) = Inr (TypedFilter t [s])"
    by (rule one_from_input_PStr)
next
  assume "FilterType_match_str tt = Inr t"
  then show "one_from_input tt (PList vs) = Inr (TypedFilter t vs)"
    by (rule one_from_input_PList)
next
  assume "FilterType_match_str tt = Inr t \<and> t \<noteq> CUI_AND_CHILDREN"
  then show "one_from_input tt (PDict d) = Inl ValueError"
    by (simp add: one_from_input_PDict_other)
qed

theorem one_from_input_values_witness:
  "one_from_input ''name'' (PStr ''fever'') = Inr (TypedFilter NAME [''fever'']) \<and>
   values' (TypedFilter NAME [''fever'']) = [''fever''] \<and>
   one_from_input ''name'' (PList [''fever'', ''cough'']) = Inr (TypedFilter NAME [''fever'', ''cough'']) \<and>
   FilterType_match_str ''name'' = Inr NAME \<and> NAME \<noteq> CUI_AND_CHILDREN \<and>
   one_from_input ''name'' (PDict [(''depth'', PInt 1), (''cui'', PStr ''C1'')]) = Inl ValueError"
proof -
  have m: "FilterType_match_str ''name'' = Inr NAME"
    by (simp add: FilterType_match_str_def normalise_def lower_def lower_char_def is_space_def)
  show ?thesis
    using one_from_input_values [of "''name''" "''fever''" "TypedFilter NAME [''fever'']"
        "[''fever'', ''cough'']" "TypedFilter NAME [''fever'', ''cough'']" NAME
        "[(''depth'', PInt 1), (''cui'', PStr ''C1'')]"] m
    by simp
qed

text \<open>
  Claim C2, as the spec states it, asks the delegate of every hierarchical filter to be of
  kind \<^verbatim>\<open>CUI\<close> and the construction with another delegate to fail. The filter that
  \<^verbatim>\<open>one_from_input\<close> builds from a dict has a delegate of kind \<^verbatim>\<open>CUI_AND_CHILDREN\<close>, and
  the constructor of \<^verbatim>\<open>CUIWithChildFilter\<close> takes a delegate of kind \<^verbatim>\<open>NAME\<close> without an
  error.
\<close>

theorem hierarchical_delegate_kind_counterexample:
  "one_from_input ''CUI_AND_CHILDREN'' (PDict [(''depth'', PInt 1), (''cui'', PStr ''C1'')]) =
     Inr (CUIWithChildFilter CUI_AND_CHILDREN (TypedFilter CUI_AND_CHILDREN [''C1'']) 1 []) \<and>
   type (delegate (CUIWithChildFilter CUI_AND_CHILDREN (TypedFilter CUI_AND_CHILDREN [''C1'']) 1 [])) \<noteq> CUI \<and>
   CUIWithChildFilter_init CUI_AND_CHILDREN (TypedFilter NAME [''fever'']) (PInt 1) =
     Inr (CUIWithChildFilter CUI_AND_CHILDREN (TypedFilter NAME [''fever'']) 1 [])"
proof -
  have m: "FilterType_match_str ''CUI_AND_CHILDREN'' = Inr CUI_AND_CHILDREN"
    by (simp add: FilterType_match_str_def normalise_def lower_def lower_char_def is_space_def)
  show ?thesis
    by (simp add: one_from_input_PDict [OF m] one_from_input_PStr [OF m] dict_getitem_def
        CUIWithChildFilter_init_def)
qed

text \<open>
  Claim C2, amended. The hierarchical filter that \<^verbatim>\<open>one_from_input\<close> builds from a dict
  has kind \<^verbatim>\<open>CUI_AND_CHILDREN\<close> and no values of its own, and its delegate, built from
  the same kind name, has kind \<^verbatim>\<open>CUI_AND_CHILDREN\<close> too; a simple filter of that kind is
  evaluated exactly as one of kind \<^verbatim>\<open>CUI\<close>. The error at construction is the
  \<^verbatim>\<open>ValueError\<close> for a dict that comes with another kind, such as \<^verbatim>\<open>NAME\<close>. The
  constructor of \<^verbatim>\<open>CUIWithChildFilter\<close> itself checks no delegate kind: with an integer
  depth it succeeds for every kind and every delegate, and keeps the delegate it is given.
\<close>

theorem hierarchical_delegate_kind:
  "(one_from_input tt (PDict d) = Inr f \<longrightarrow>
      (\<exists>dl n. f = CUIWithChildFilter CUI_AND_CHILDREN dl n [] \<and> type dl = CUI_AND_CHILDREN)) \<and>
   get_applicable_targets (TypedFilter CUI_AND_CHILDREN vs) tr in_gen =
     get_applicable_targets (TypedFilter CUI vs) tr in_gen \<and>
   (FilterType_match_str tt = Inr t \<and> t \<noteq> CUI_AND_CHILDREN \<longrightarrow>
      one_from_input tt (PDict d) = Inl ValueError) \<and>
   CUIWithChildFilter_init k dg (PInt j) = Inr (CUIWithChildFilter k dg j []) \<and>
   delegate (CUIWithChildFilter k dg j []) = dg"
proof (intro conjI impI)
  show "CUIWithChildFilter_init k dg (PInt j) = Inr (CUIWithChildFilter k dg j [])"
    by (simp add: CUIWithChildFilter_init_def)
  show "delegate (CUIWithChildFilter k dg j []) = dg"
    by simp
next
  assume "one_from_input tt (PDict d) = Inr f"
  then show "\<exists>dl n. f = CUIWithChildFilter CUI_AND_CHILDREN dl n [] \<and> type dl = CUI_AND_CHILDREN"
    by (rule one_from_input_PDict_shape)
next
  show "get_applicable_targets (TypedFilter CUI_AND_CHILDREN vs) tr in_gen =
     get_applicable_targets (TypedFilter CUI vs) tr in_gen"
    by (simp add: TypedFilter_get_applicable_targets_def)
next
  assume "FilterType_match_str tt = Inr t \<and> t \<noteq> CUI_AND_CHILDREN"
  then show "one_from_input tt (PDict d) = Inl ValueError"
    by (simp add: one_from_input_PDict_other)
qed

theorem hierarchical_delegate_kind_witness:
  "one_from_input ''CUI_AND_CHILDREN'' (PDict [(''depth'', PInt 2), (''cui'', PList [''C1'', ''C2''])]) =
     Inr (CUIWithChildFilter CUI_AND_CHILDREN (TypedFilter CUI_AND_CHILDREN [''C1'', ''C2'']) 2 []) \<and>
   (\<exists>dl n. CUIWithChildFilter CUI_AND_CHILDREN (TypedFilter CUI_AND_CHILDREN [''C1'', ''C2'']) 2 [] =
      CUIWithChildFilter CUI_AND_CHILDREN dl n [] \<and> type dl = CUI_AND_CHILDREN) \<and>
   FilterType_match_str ''NAME'' = Inr NAME \<and> NAME \<noteq> CUI_AND_CHILDREN \<and>
   one_from_input ''NAME'' (PDict [(''depth'', PInt 2), (''cui'', PList [''C1'', ''C2''])]) = Inl ValueError \<and>
   CUIWithChildFilter_init CUI_AND_CHILDREN (TypedFilter NAME [''fever'']) (PInt 2) =
     Inr (CUIWithChildFilter CUI_AND_CHILDREN (TypedFilter NAME [''fever'']) 2 [])"
proof -
  have m: "FilterType_match_str ''CUI_AND_CHILDREN'' = Inr CUI_AND_CHILDREN"
    by (simp add: FilterType_match_str_def normalise_def lower_def lower_char_def is_space_def)
  have n: "FilterType_match_str ''NAME'' = Inr NAME"
    by (simp add: FilterType_match_str_def normalise_def lower_def lower_char_def is_space_def)
  have c: "one_from_input ''CUI_AND_CHILDREN'' (PDict [(''depth'', PInt 2), (''cui'', PList [''C1'', ''C2''])]) =
     Inr (CUIWithChildFilter CUI_AND_CHILDREN (TypedFilter CUI_AND_CHILDREN [''C1'', ''C2'']) 2 [])"
    by (simp add: one_from_input_PDict [OF m] one_from_input_PList [OF m] dict_getitem_def
        CUIWithChildFilter_init_def)
  show ?thesis
    using hierarchical_delegate_kind [of "''CUI_AND_CHILDREN''"
        "[(''depth'', PInt 2), (''cui'', PList [''C1'', ''C2''])]"
        "CUIWithChildFilter CUI_AND_CHILDREN (TypedFilter CUI_AND_CHILDREN [''C1'', ''C2'']) 2 []"]
      hierarchical_delegate_kind [of "''NAME''"
        "[(''depth'', PInt 2), (''cui'', PList [''C1'', ''C2''])]" _ _ _ _ NAME
        CUI_AND_CHILDREN "TypedFilter NAME [''fever'']" 2]
      c n
    by simp
qed


subsection \<open>Serialisation\<close>

lemma one_from_input_result:
  assumes "one_from_input tt v = Inr f"
  shows "(\<exists>t vs. f = TypedFilter t vs) \<or> (\<exists>dl n. f = CUIWithChildFilter CUI_AND_CHILDREN dl n [])"
proof -
  from assms have m: "FilterType_match_str tt = Inr (type f)" by (rule one_from_input_type)
  show ?thesis
  proof (cases v)
    case (PStr s)
    with assms m have "f = TypedFilter (type f) [s]" by (simp add: one_from_input_PStr)
    then show ?thesis by blast
  next
    case (PList vs)
    with assms m have "f = TypedFilter (type f) vs" by (simp add: one_from_input_PList)
    then show ?thesis by blast
  next
    case (PInt k) with assms m show ?thesis
      by (subst (asm) one_from_input.simps) (simp add: TypedFilter_init_def)
  next
    case (PDict d) with assms show ?thesis
      using one_from_input_PDict_shape by blast
  qed
qed

lemma from_dict_to_dict_simple:
  "from_dict (to_dict (TypedFilter t vs)) = Inr [TypedFilter t vs]"
  by (simp add: one_from_input_PList [OF FilterType_match_str_name])

lemma from_dict_to_dict_hierarchical:
  "from_dict (to_dict (CUIWithChildFilter CUI_AND_CHILDREN d n vs)) =
     Inr [CUIWithChildFilter CUI_AND_CHILDREN (TypedFilter CUI_AND_CHILDREN (values' d)) n []]"
proof -
  have m: "FilterType_match_str ''CUI_AND_CHILDREN'' = Inr CUI_AND_CHILDREN"
    using FilterType_match_str_name [of CUI_AND_CHILDREN] by simp
  show ?thesis
    by (simp add: one_from_input_PDict [OF m] one_from_input_PList [OF m] dict_getitem_def
        CUIWithChildFilter_init_def)
qed

lemma FilterOptions_roundtrip:
  "FilterOptions_from_dict (FilterOptions_to_dict opts) = Inr opts"
  by (cases "onlyprefnames opts")
    (simp_all add: FilterOptions_from_dict_def FilterOptions_to_dict_def
      FilterStrategy_match_str_name str_of_bool_def lower_def lower_char_def)

text \<open>
  Claim C4. Parsing the serialised form gives the filter back: a simple filter comes back
  as it was; a hierarchical filter (kind \<^verbatim>\<open>CUI_AND_CHILDREN\<close>, no values of its own) comes
  back with the same kind, values and depth and with a delegate that has the same values;
  so every filter that \<^verbatim>\<open>one_from_input\<close> constructs comes back as an equivalent filter.
  \<^verbatim>\<open>FilterOptions\<close> come back with the same strategy and the same \<open>onlyprefnames\<close>.
\<close>

theorem to_dict_from_dict_roundtrip:
  "from_dict (to_dict (TypedFilter t vs)) = Inr [TypedFilter t vs] \<and>
   from_dict (to_dict (CUIWithChildFilter CUI_AND_CHILDREN d n [])) =
     Inr [CUIWithChildFilter CUI_AND_CHILDREN (TypedFilter CUI_AND_CHILDREN (values' d)) n []] \<and>
   (one_from_input tt v = Inr f \<longrightarrow> (\<exists>g. from_dict (to_dict f) = Inr [g] \<and> same_filter f g)) \<and>
   FilterOptions_from_dict (FilterOptions_to_dict opts) = Inr opts"
proof (intro conjI impI)
  show "from_dict (to_dict (TypedFilter t vs)) = Inr [TypedFilter t vs]"
    by (rule from_dict_to_dict_simple)
  show "from_dict (to_dict (CUIWithChildFilter CUI_AND_CHILDREN d n [])) =
     Inr [CUIWithChildFilter CUI_AND_CHILDREN (TypedFilter CUI_AND_CHILDREN (values' d)) n []]"
    by (rule from_dict_to_dict_hierarchical)
  show "FilterOptions_from_dict (FilterOptions_to_dict opts) = Inr opts"
    by (rule FilterOptions_roundtrip)
next
  assume "one_from_input tt v = Inr f"
  then consider (simple) t' vs' where "f = TypedFilter t' vs'"
    | (hier) dl k where "f = CUIWithChildFilter CUI_AND_CHILDREN dl k []"
    using one_from_input_result by blast
  then show "\<exists>g. from_dict (to_dict f) = Inr [g] \<and> same_filter f g"
  proof cases
    case simple
    then show ?thesis
      using from_dict_to_dict_simple [of t' vs'] by (simp add: same_filter_def)
  next
    case hier
    then show ?thesis
      using from_dict_to_dict_hierarchical [of dl k "[]"] by (simp add: same_filter_def)
  qed
qed

theorem to_dict_from_dict_roundtrip_witness:
  "one_from_input ''cui_and_children'' (PDict [(''depth'', PInt 2), (''cui'', PStr ''C1'')]) =
     Inr (CUIWithChildFilter CUI_AND_CHILDREN (TypedFilter CUI_AND_CHILDREN [''C1'']) 2 []) \<and>
   (\<exists>g. from_dict (to_dict (CUIWithChildFilter CUI_AND_CHILDREN (TypedFilter CUI_AND_CHILDREN [''C1'']) 2 [])) = Inr [g] \<and>
      same_filter (CUIWithChildFilter CUI_AND_CHILDREN (TypedFilter CUI_AND_CHILDREN [''C1'']) 2 []) g)"
proof -
  have m: "FilterType_match_str ''cui_and_children'' = Inr CUI_AND_CHILDREN"
    by (simp add: FilterType_match_str_def normalise_def lower_def lower_char_def is_space_def)
  have c: "one_from_input ''cui_and_children'' (PDict [(''depth'', PInt 2), (''cui'', PStr ''C1'')]) =
     Inr (CUIWithChildFilter CUI_AND_CHILDREN (TypedFilter CUI_AND_CHILDREN [''C1'']) 2 [])"
    by (simp add: one_from_input_PDict [OF m] one_from_input_PStr [OF m] dict_getitem_def
        CUIWithChildFilter_init_def)
  show ?thesis
    using to_dict_from_dict_roundtrip [of _ _ _ _ "''cui_and_children''"
        "PDict [(''depth'', PInt 2), (''cui'', PStr ''C1'')]"
        "CUIWithChildFilter CUI_AND_CHILDREN (TypedFilter CUI_AND_CHILDREN [''C1'']) 2 []"] c
    by simp
qed

subsection \<open>Filtering by type id\<close>

text \<open>
  Claim C7. A \<^verbatim>\<open>TYPE_ID\<close> filter yields every \<^verbatim>\<open>TargetInfo\<close> of its input once for each
  type id of its concept that is among the filter's values: as many times as the concept's
  type ids (a set) meet the values, twice when they meet in two of them. A concept without
  an entry in the table of type ids has no type id, so it is dropped, and nothing is raised.
\<close>

theorem type_id_filter_duplicates:
  "get_applicable_targets (TypedFilter TYPE_ID vs) tr in_gen =
     (concat (map (\<lambda>ti. replicate
        (length (filter (\<lambda>tid. tid \<in> set vs)
           (case map_of (cui2type_ids tr) (cui ti) of Some tids \<Rightarrow> tids | None \<Rightarrow> []))) ti) in_gen),
      None) \<and>
   (map_of (cui2type_ids tr) (cui ti) = Some tids \<and> distinct tids \<longrightarrow>
      get_applicable_targets (TypedFilter TYPE_ID vs) tr [ti] =
        (replicate (card (set tids \<inter> set vs)) ti, None)) \<and>
   (map_of (cui2type_ids tr) (cui ti) = Some tids \<and> a \<in> set vs \<and> b \<in> set vs \<and>
      a \<in> set tids \<and> b \<in> set tids \<and> a \<noteq> b \<and> distinct tids \<and> set tids \<inter> set vs = {a, b} \<longrightarrow>
      get_applicable_targets (TypedFilter TYPE_ID vs) tr [ti] = ([ti, ti], None)) \<and>
   (map_of (cui2type_ids tr) (cui ti) = None \<longrightarrow>
      get_applicable_targets (TypedFilter TYPE_ID vs) tr [ti] = ([], None))"
proof -
  have gen: "get_applicable_targets (TypedFilter TYPE_ID vs) tr xs =
     (concat (map (\<lambda>ti. replicate
        (length (filter (\<lambda>tid. tid \<in> set vs)
           (case map_of (cui2type_ids tr) (cui ti) of Some tids \<Rightarrow> tids | None \<Rightarrow> []))) ti) xs),
      None)" for xs
    by (simp add: TypedFilter_get_applicable_targets_def map_replicate_const)
  have cnt: "length (filter (\<lambda>tid. tid \<in> set vs) tids) = card (set tids \<inter> set vs)"
    if "distinct tids"
  proof -
    have "card (set tids \<inter> set vs) = card (set (filter (\<lambda>tid. tid \<in> set vs) tids))"
      by (rule arg_cong [where f = card]) auto
    also have "\<dots> = length (filter (\<lambda>tid. tid \<in> set vs) tids)"
      using that by (intro distinct_card distinct_filter)
    finally show ?thesis by simp
  qed
  show ?thesis
  proof (intro conjI impI)
    show "get_applicable_targets (TypedFilter TYPE_ID vs) tr in_gen =
     (concat (map (\<lambda>ti. replicate
        (length (filter (\<lambda>tid. tid \<in> set vs)
           (case map_of (cui2type_ids tr) (cui ti) of Some tids \<Rightarrow> tids | None \<Rightarrow> []))) ti) in_gen),
      None)"
      by (rule gen)
  next
    assume "map_of (cui2type_ids tr) (cui ti) = Some tids \<and> distinct tids"
    then show "get_applicable_targets (TypedFilter TYPE_ID vs) tr [ti] =
        (replicate (card (set tids \<inter> set vs)) ti, None)"
      by (simp add: gen cnt del: get_applicable_targets.simps)
  next
    assume h: "map_of (cui2type_ids tr) (cui ti) = Some tids \<and> a \<in> set vs \<and> b \<in> set vs \<and>
      a \<in> set tids \<and> b \<in> set tids \<and> a \<noteq> b \<and> distinct tids \<and> set tids \<inter> set vs = {a, b}"
    then have "card (set tids \<inter> set vs) = 2" by simp
    with h show "get_applicable_targets (TypedFilter TYPE_ID vs) tr [ti] = ([ti, ti], None)"
      by (simp add: gen cnt numeral_2_eq_2 del: get_applicable_targets.simps)
  next
    assume "map_of (cui2type_ids tr) (cui ti) = None"
    then show "get_applicable_targets (TypedFilter TYPE_ID vs) tr [ti] = ([], None)"
      by (simp add: gen del: get_applicable_targets.simps)
  qed
qed


theorem type_id_filter_duplicates_witness:
  "map_of (cui2type_ids typed_layer) ''C1'' = Some [''T1'', ''T2'', ''T3''] \<and>
   get_applicable_targets (TypedFilter TYPE_ID [''T3'', ''T1'']) typed_layer [\<lparr>cui = ''C1'', val = ''fever''\<rparr>] =
     ([\<lparr>cui = ''C1'', val = ''fever''\<rparr>, \<lparr>cui = ''C1'', val = ''fever''\<rparr>], None) \<and>
   map_of (cui2type_ids typed_layer) ''C2'' = None \<and>
   get_applicable_targets (TypedFilter TYPE_ID [''T3'', ''T1'']) typed_layer [\<lparr>cui = ''C2'', val = ''cough''\<rparr>] =
     ([], None)"
proof -
  have t: "cui2type_ids typed_layer = [(''C1'', [''T1'', ''T2'', ''T3''])]"
    by (simp add: typed_layer_def TranslationLayer_init_def)
  have i: "set [''T1'', ''T2'', ''T3''] \<inter> set [''T3'', ''T1''] = {''T1'', ''T3''}"
    by auto
  show ?thesis
    using type_id_filter_duplicates [of "[''T3'', ''T1'']" typed_layer "[]"
        "\<lparr>cui = ''C1'', val = ''fever''\<rparr>" "[''T1'', ''T2'', ''T3'']" "''T1''" "''T3''"]
      type_id_filter_duplicates [of "[''T3'', ''T1'']" typed_layer "[]"
        "\<lparr>cui = ''C2'', val = ''cough''\<rparr>" "[]" "''T1''" "''T3''"]
      i
    by (simp add: t del: get_applicable_targets.simps)
qed

subsection \<open>Hierarchical expansion\<close>

declare get_children_of.simps [simp del]

lemma snd_gen_then:
  "snd (gen_then g h) = (case snd g of Some e \<Rightarrow> Some e | None \<Rightarrow> snd h)"
  by (cases g) (auto simp: gen_then_def split: option.splits)

lemma fst_gen_then:
  "fst (gen_then g h) = (if snd g = None then fst g @ fst h else fst g)"
  by (cases g) (auto simp: gen_then_def split: option.splits)

lemma snd_gen_for_None:
  "snd (gen_for xs body) = None \<longleftrightarrow> (\<forall>x \<in> set xs. snd (body x) = None)"
  by (induction xs) (auto simp: snd_gen_then split: option.splits)

lemma fst_gen_for:
  "snd (gen_for xs body) = None \<Longrightarrow> fst (gen_for xs body) = concat (map (\<lambda>x. fst (body x)) xs)"
  by (induction xs) (auto simp: snd_gen_then fst_gen_then split: option.splits)

lemma snd_gen_for_Some:
  "snd (gen_for xs body) = Some e \<Longrightarrow> \<exists>x \<in> set xs. snd (body x) = Some e"
  by (induction xs) (auto simp: snd_gen_then split: option.splits)

lemma snd_targets_for:
  "snd (targets_for tr c) = (case map_of (cui2names tr) c of None \<Rightarrow> Some (KeyError c) | Some names \<Rightarrow> None)"
  by (auto simp: targets_for_def dict_getitem_def split: option.splits)

lemma set_targets_for:
  "set (fst (targets_for tr c)) = targets_of tr {c}"
  by (auto simp: targets_for_def dict_getitem_def targets_of_def names_of_def TargetInfo_init_def
      split: option.splits)

lemma targets_of_Un: "targets_of tr (A \<union> B) = targets_of tr A \<union> targets_of tr B"
  by (auto simp: targets_of_def)

lemma targets_of_UN: "targets_of tr (\<Union>x \<in> A. f x) = (\<Union>x \<in> A. targets_of tr (f x))"
  by (auto simp: targets_of_def)

lemma targets_of_set: "targets_of tr (set xs) = (\<Union>x \<in> set xs. targets_of tr {x})"
  by (auto simp: targets_of_def)

lemma get_children_of_unfold:
  "get_children_of self tr c cur =
     (case map_of (cui2children tr) c of
        None \<Rightarrow> ([], Some (KeyError c))
      | Some children \<Rightarrow>
          gen_for children (\<lambda>child.
            gen_then (targets_for tr child)
              (if cur < depth self then get_children_of self tr child (cur + 1) else ([], None))))"
  by (subst get_children_of.simps) (simp add: dict_getitem_def split: option.splits)

lemma get_children_of_set:
  "snd (get_children_of self tr c cur) = None \<Longrightarrow>
     set (fst (get_children_of self tr c cur)) =
       targets_of tr (descendants tr c (Suc (nat (depth self - cur))))"
proof (induction self tr c cur rule: get_children_of.induct)
  case (1 self tr c cur)
  from "1.prems" obtain children where ch: "map_of (cui2children tr) c = Some children"
    by (subst (asm) get_children_of_unfold) (auto split: option.splits)
  let ?body = "\<lambda>child. gen_then (targets_for tr child)
      (if cur < depth self then get_children_of self tr child (cur + 1) else ([], None))"
  have eq: "get_children_of self tr c cur = gen_for children ?body"
    by (subst get_children_of_unfold) (simp add: ch)
  with "1.prems" have ok: "\<forall>child \<in> set children. snd (?body child) = None"
    by (simp add: snd_gen_for_None)
  have out: "fst (get_children_of self tr c cur) = concat (map (\<lambda>x. fst (?body x)) children)"
    using "1.prems" eq fst_gen_for [of children ?body] by simp
  have co: "children_of tr c = children" by (simp add: children_of_def ch)
  show ?case
  proof (cases "cur < depth self")
    case True
    then have n: "nat (depth self - cur) = Suc (nat (depth self - (cur + 1)))" by simp
    have "set (fst (?body child)) =
        targets_of tr {child} \<union> targets_of tr (descendants tr child (Suc (nat (depth self - (cur + 1)))))"
      if "child \<in> set children" for child
    proof -
      from ok that True have s: "snd (targets_for tr child) = None"
        and r: "snd (get_children_of self tr child (cur + 1)) = None"
        by (auto simp: snd_gen_then split: option.splits)
      have "dict_getitem (cui2children tr) c = Inr children" by (simp add: dict_getitem_def ch)
      from "1.IH" [OF this True r] s True show ?thesis
        by (simp add: fst_gen_then set_targets_for)
    qed
    then have "set (fst (get_children_of self tr c cur)) =
        (\<Union>child \<in> set children. targets_of tr {child} \<union>
           targets_of tr (descendants tr child (Suc (nat (depth self - (cur + 1))))))"
      by (simp add: out)
    also have "\<dots> = targets_of tr (set children) \<union>
        (\<Union>child \<in> set children. targets_of tr (descendants tr child (Suc (nat (depth self - (cur + 1))))))"
      by (subst targets_of_set) blast
    also have "\<dots> = targets_of tr (descendants tr c (Suc (Suc (nat (depth self - (cur + 1))))))"
      by (simp add: co targets_of_Un targets_of_UN)
    finally show ?thesis by (simp only: n)
  next
    case False
    then have n: "nat (depth self - cur) = 0" by simp
    have "set (fst (?body child)) = targets_of tr {child}" if "child \<in> set children" for child
      using ok that False by (auto simp: snd_gen_then fst_gen_then set_targets_for split: option.splits)
    then have "set (fst (get_children_of self tr c cur)) = (\<Union>child \<in> set children. targets_of tr {child})"
      by (simp add: out)
    also have "\<dots> = targets_of tr (set children)"
      by (subst targets_of_set) blast
    also have "\<dots> = targets_of tr (descendants tr c (Suc 0))"
      by (simp add: co)
    finally show ?thesis by (simp only: n)
  qed
qed


lemma abc_BC:
  "get_applicable_targets (CUIWithChildFilter CUI_AND_CHILDREN (TypedFilter CUI_AND_CHILDREN [''A'']) 1 [])
     (abc_layer [''B'', ''C'']) (fst (all_targets (abc_layer [''B'', ''C'']))) =
   ([\<lparr>cui = ''A'', val = ''a''\<rparr>, \<lparr>cui = ''B'', val = ''b''\<rparr>, \<lparr>cui = ''C'', val = ''c''\<rparr>], None)"
  by code_simp

lemma abc_CB:
  "get_applicable_targets (CUIWithChildFilter CUI_AND_CHILDREN (TypedFilter CUI_AND_CHILDREN [''A'']) 1 [])
     (abc_layer [''C'', ''B'']) (fst (all_targets (abc_layer [''C'', ''B'']))) =
   ([\<lparr>cui = ''A'', val = ''a''\<rparr>, \<lparr>cui = ''C'', val = ''c''\<rparr>, \<lparr>cui = ''B'', val = ''b''\<rparr>], None)"
  by code_simp

lemma two_orders:
  assumes "set ch = {x, y}" "distinct ch" "x \<noteq> y"
  shows "ch = [x, y] \<or> ch = [y, x]"
proof -
  from assms have "length ch = 2" using distinct_card [of ch] by simp
  then obtain p q where "ch = [p, q]"
    by (metis (no_types, opaque_lifting) One_nat_def Suc_1 length_0_conv length_Suc_conv)
  with assms show ?thesis by (auto simp: doubleton_eq_iff)
qed


lemma get_applicable_targets_hierarchical:
  assumes k: "t' = CUI \<or> t' = CUI_AND_CHILDREN"
    and r: "get_applicable_targets (CUIWithChildFilter t (TypedFilter t' vs) n vs') tr in_gen = (out, None)"
  shows "out = concat (map (\<lambda>ti. ti # fst (get_children_of (CUIWithChildFilter t (TypedFilter t' vs) n vs') tr (cui ti) 1))
           (filter (\<lambda>ti. cui ti \<in> set vs) in_gen))"
    and "set out = set (filter (\<lambda>ti. cui ti \<in> set vs) in_gen) \<union>
           targets_of tr (\<Union>ti \<in> set (filter (\<lambda>ti. cui ti \<in> set vs) in_gen).
              descendants tr (cui ti) (Suc (nat (n - 1))))"
proof -
  let ?self = "CUIWithChildFilter t (TypedFilter t' vs) n vs'"
  let ?P = "filter (\<lambda>ti. cui ti \<in> set vs) in_gen"
  let ?body = "\<lambda>ti. gen_then ([ti], None) (get_children_of ?self tr (cui ti) 1)"
  have d: "TypedFilter_get_applicable_targets t' vs tr in_gen = ?P"
    using k by (auto simp: TypedFilter_get_applicable_targets_def)
  have eq: "get_applicable_targets ?self tr in_gen = gen_then (gen_for ?P ?body) ([], None)"
    by (simp add: d)
  from r eq have whole: "gen_then (gen_for ?P ?body) ([], None) = (out, None)"
    by simp
  have ok: "snd (gen_for ?P ?body) = None"
    using arg_cong [OF whole, of snd] by (simp add: snd_gen_then split: option.splits)
  then have each: "\<forall>ti \<in> set ?P. snd (get_children_of ?self tr (cui ti) 1) = None"
    unfolding snd_gen_for_None by (simp add: snd_gen_then)
  have "out = fst (gen_for ?P ?body)"
    using arg_cong [OF whole, of fst] ok by (simp add: fst_gen_then)
  also have "\<dots> = concat (map (\<lambda>ti. fst (?body ti)) ?P)"
    using ok by (rule fst_gen_for)
  also have "\<dots> = concat (map (\<lambda>ti. ti # fst (get_children_of ?self tr (cui ti) 1)) ?P)"
    by (simp add: fst_gen_then)
  finally show out: "out = concat (map (\<lambda>ti. ti # fst (get_children_of ?self tr (cui ti) 1)) ?P)" .
  have "set out = (\<Union>ti \<in> set ?P. insert ti (set (fst (get_children_of ?self tr (cui ti) 1))))"
    unfolding out by simp
  also have "\<dots> = (\<Union>ti \<in> set ?P. insert ti (targets_of tr (descendants tr (cui ti) (Suc (nat (n - 1))))))"
    using each get_children_of_set [of ?self tr _ 1] by simp
  also have "\<dots> = set ?P \<union> targets_of tr (\<Union>ti \<in> set ?P. descendants tr (cui ti) (Suc (nat (n - 1))))"
    unfolding targets_of_UN by blast
  finally show "set out = set ?P \<union> targets_of tr (\<Union>ti \<in> set ?P. descendants tr (cui ti) (Suc (nat (n - 1))))" .
qed

lemma three_level_depth1:
  "get_applicable_targets (CUIWithChildFilter CUI_AND_CHILDREN (TypedFilter CUI_AND_CHILDREN [''root'']) 1 [])
     three_level (fst (all_targets three_level)) =
   ([\<lparr>cui = ''root'', val = ''r''\<rparr>, \<lparr>cui = ''mid'', val = ''m''\<rparr>], None)"
  by code_simp

lemma three_level_depth2:
  "get_applicable_targets (CUIWithChildFilter CUI_AND_CHILDREN (TypedFilter CUI_AND_CHILDREN [''root'']) 2 [])
     three_level (fst (all_targets three_level)) =
   ([\<lparr>cui = ''root'', val = ''r''\<rparr>, \<lparr>cui = ''mid'', val = ''m''\<rparr>, \<lparr>cui = ''leaf'', val = ''l''\<rparr>], None)"
  by code_simp

text \<open>
  Claim C5. The hierarchical filter with depth 1 and the values \<open>[A]\<close>, as
  \<^verbatim>\<open>one_from_input\<close> builds it, applied to \<^verbatim>\<open>all_targets()\<close> of the ontology with the
  children \<open>A \<rightarrow> {B, C}\<close> and the names \<open>a\<close>, \<open>b\<close>, \<open>c\<close>, ends normally and yields the
  three targets (A, a), (B, b), (C, c), each once, whatever the order in which the set of
  children is iterated. The depth bound is inclusive. On the chain root \<rightarrow> mid \<rightarrow> leaf the
  filter for \<open>root\<close> yields the targets of \<open>root\<close> and \<open>mid\<close> with depth 1, and that of
  \<open>leaf\<close> as well with depth 2. In general, a hierarchical filter whose delegate filters by
  concept id, when it ends normally, yields each target of its input that the delegate
  accepts, followed by the expansion of its concept from depth 1 on, and nothing else; the
  expansion yields the targets of the concepts within \<open>depth\<close> hops: with depth 1 those of
  the children only, with depth 2 those of the children and of the grandchildren.
\<close>

theorem hierarchical_filter_depth:
  "(one_from_input ''CUI_AND_CHILDREN'' (PDict [(''depth'', PInt 1), (''cui'', PList [''A''])]) = Inr f \<and>
      set ch = {''B'', ''C''} \<and> distinct ch \<longrightarrow>
      (\<exists>out. get_applicable_targets f (abc_layer ch) (fst (all_targets (abc_layer ch))) = (out, None) \<and>
         mset out = {#\<lparr>cui = ''A'', val = ''a''\<rparr>, \<lparr>cui = ''B'', val = ''b''\<rparr>, \<lparr>cui = ''C'', val = ''c''\<rparr>#})) \<and>
   (snd (get_children_of self tr c 1) = None \<longrightarrow>
      set (fst (get_children_of self tr c 1)) =
        targets_of tr (descendants tr c (Suc (nat (depth self - 1))))) \<and>
   (depth self = 1 \<and> snd (get_children_of self tr c 1) = None \<longrightarrow>
      set (fst (get_children_of self tr c 1)) = targets_of tr (set (children_of tr c))) \<and>
   (depth self = 2 \<and> snd (get_children_of self tr c 1) = None \<longrightarrow>
      set (fst (get_children_of self tr c 1)) =
        targets_of tr (set (children_of tr c) \<union>
          (\<Union>child \<in> set (children_of tr c). set (children_of tr child)))) \<and>
   get_applicable_targets (CUIWithChildFilter CUI_AND_CHILDREN (TypedFilter CUI_AND_CHILDREN [''root'']) 1 [])
       three_level (fst (all_targets three_level)) =
     ([\<lparr>cui = ''root'', val = ''r''\<rparr>, \<lparr>cui = ''mid'', val = ''m''\<rparr>], None) \<and>
   get_applicable_targets (CUIWithChildFilter CUI_AND_CHILDREN (TypedFilter CUI_AND_CHILDREN [''root'']) 2 [])
       three_level (fst (all_targets three_level)) =
     ([\<lparr>cui = ''root'', val = ''r''\<rparr>, \<lparr>cui = ''mid'', val = ''m''\<rparr>, \<lparr>cui = ''leaf'', val = ''l''\<rparr>], None) \<and>
   ((k = CUI \<or> k = CUI_AND_CHILDREN) \<and>
      get_applicable_targets (CUIWithChildFilter t (TypedFilter k vs) n vs') tr in_gen = (out, None) \<longrightarrow>
      out = concat (map (\<lambda>ti. ti # fst (get_children_of (CUIWithChildFilter t (TypedFilter k vs) n vs') tr (cui ti) 1))
              (filter (\<lambda>ti. cui ti \<in> set vs) in_gen)) \<and>
      set out = set (filter (\<lambda>ti. cui ti \<in> set vs) in_gen) \<union>
        targets_of tr (\<Union>ti \<in> set (filter (\<lambda>ti. cui ti \<in> set vs) in_gen).
           descendants tr (cui ti) (Suc (nat (n - 1))))) \<and>
   ((k = CUI \<or> k = CUI_AND_CHILDREN) \<and>
      get_applicable_targets (CUIWithChildFilter t (TypedFilter k vs) 1 vs') tr in_gen = (out1, None) \<longrightarrow>
      set out1 = set (filter (\<lambda>ti. cui ti \<in> set vs) in_gen) \<union>
        targets_of tr (\<Union>ti \<in> set (filter (\<lambda>ti. cui ti \<in> set vs) in_gen). set (children_of tr (cui ti)))) \<and>
   ((k = CUI \<or> k = CUI_AND_CHILDREN) \<and>
      get_applicable_targets (CUIWithChildFilter t (TypedFilter k vs) 2 vs') tr in_gen = (out2, None) \<longrightarrow>
      set out2 = set (filter (\<lambda>ti. cui ti \<in> set vs) in_gen) \<union>
        targets_of tr (\<Union>ti \<in> set (filter (\<lambda>ti. cui ti \<in> set vs) in_gen).
           set (children_of tr (cui ti)) \<union>
           (\<Union>child \<in> set (children_of tr (cui ti)). set (children_of tr child))))"
proof (intro conjI impI)
  assume h: "one_from_input ''CUI_AND_CHILDREN'' (PDict [(''depth'', PInt 1), (''cui'', PList [''A''])]) = Inr f \<and>
      set ch = {''B'', ''C''} \<and> distinct ch"
  have m: "FilterType_match_str ''CUI_AND_CHILDREN'' = Inr CUI_AND_CHILDREN"
    using FilterType_match_str_name [of CUI_AND_CHILDREN] by simp
  have "one_from_input ''CUI_AND_CHILDREN'' (PDict [(''depth'', PInt 1), (''cui'', PList [''A''])]) =
      Inr (CUIWithChildFilter CUI_AND_CHILDREN (TypedFilter CUI_AND_CHILDREN [''A'']) 1 [])"
    by (simp add: one_from_input_PDict [OF m] one_from_input_PList [OF m] dict_getitem_def
        CUIWithChildFilter_init_def)
  with h have f: "f = CUIWithChildFilter CUI_AND_CHILDREN (TypedFilter CUI_AND_CHILDREN [''A'']) 1 []"
    by simp
  from h have "ch = [''B'', ''C''] \<or> ch = [''C'', ''B'']"
    by (intro two_orders) simp_all
  then show "\<exists>out. get_applicable_targets f (abc_layer ch) (fst (all_targets (abc_layer ch))) = (out, None) \<and>
         mset out = {#\<lparr>cui = ''A'', val = ''a''\<rparr>, \<lparr>cui = ''B'', val = ''b''\<rparr>, \<lparr>cui = ''C'', val = ''c''\<rparr>#}"
  proof
    assume "ch = [''B'', ''C'']"
    then show ?thesis unfolding f by (simp only: abc_BC) simp
  next
    assume "ch = [''C'', ''B'']"
    then show ?thesis unfolding f by (simp only: abc_CB) simp
  qed
next
  assume "snd (get_children_of self tr c 1) = None"
  then show "set (fst (get_children_of self tr c 1)) =
        targets_of tr (descendants tr c (Suc (nat (depth self - 1))))"
    by (rule get_children_of_set)
next
  assume "depth self = 1 \<and> snd (get_children_of self tr c 1) = None"
  then show "set (fst (get_children_of self tr c 1)) = targets_of tr (set (children_of tr c))"
    using get_children_of_set [of self tr c 1] by simp
next
  assume "depth self = 2 \<and> snd (get_children_of self tr c 1) = None"
  then show "set (fst (get_children_of self tr c 1)) =
        targets_of tr (set (children_of tr c) \<union>
          (\<Union>child \<in> set (children_of tr c). set (children_of tr child)))"
    using get_children_of_set [of self tr c 1] by simp
next
  show "get_applicable_targets (CUIWithChildFilter CUI_AND_CHILDREN (TypedFilter CUI_AND_CHILDREN [''root'']) 1 [])
       three_level (fst (all_targets three_level)) =
     ([\<lparr>cui = ''root'', val = ''r''\<rparr>, \<lparr>cui = ''mid'', val = ''m''\<rparr>], None)"
    by (rule three_level_depth1)
  show "get_applicable_targets (CUIWithChildFilter CUI_AND_CHILDREN (TypedFilter CUI_AND_CHILDREN [''root'']) 2 [])
       three_level (fst (all_targets three_level)) =
     ([\<lparr>cui = ''root'', val = ''r''\<rparr>, \<lparr>cui = ''mid'', val = ''m''\<rparr>, \<lparr>cui = ''leaf'', val = ''l''\<rparr>], None)"
    by (rule three_level_depth2)
next
  assume "(k = CUI \<or> k = CUI_AND_CHILDREN) \<and>
      get_applicable_targets (CUIWithChildFilter t (TypedFilter k vs) n vs') tr in_gen = (out, None)"
  then have k: "k = CUI \<or> k = CUI_AND_CHILDREN"
    and r: "get_applicable_targets (CUIWithChildFilter t (TypedFilter k vs) n vs') tr in_gen = (out, None)"
    by blast+
  show "out = concat (map (\<lambda>ti. ti # fst (get_children_of (CUIWithChildFilter t (TypedFilter k vs) n vs') tr (cui ti) 1))
              (filter (\<lambda>ti. cui ti \<in> set vs) in_gen))"
    using k r by (rule get_applicable_targets_hierarchical(1))
  show "set out = set (filter (\<lambda>ti. cui ti \<in> set vs) in_gen) \<union>
        targets_of tr (\<Union>ti \<in> set (filter (\<lambda>ti. cui ti \<in> set vs) in_gen).
           descendants tr (cui ti) (Suc (nat (n - 1))))"
    using k r by (rule get_applicable_targets_hierarchical(2))
next
  assume "(k = CUI \<or> k = CUI_AND_CHILDREN) \<and>
      get_applicable_targets (CUIWithChildFilter t (TypedFilter k vs) 1 vs') tr in_gen = (out1, None)"
  then have k: "k = CUI \<or> k = CUI_AND_CHILDREN"
    and r: "get_applicable_targets (CUIWithChildFilter t (TypedFilter k vs) 1 vs') tr in_gen = (out1, None)"
    by blast+
  show "set out1 = set (filter (\<lambda>ti. cui ti \<in> set vs) in_gen) \<union>
        targets_of tr (\<Union>ti \<in> set (filter (\<lambda>ti. cui ti \<in> set vs) in_gen). set (children_of tr (cui ti)))"
    using get_applicable_targets_hierarchical(2) [OF k r] by simp
next
  assume "(k = CUI \<or> k = CUI_AND_CHILDREN) \<and>
      get_applicable_targets (CUIWithChildFilter t (TypedFilter k vs) 2 vs') tr in_gen = (out2, None)"
  then have k: "k = CUI \<or> k = CUI_AND_CHILDREN"
    and r: "get_applicable_targets (CUIWithChildFilter t (TypedFilter k vs) 2 vs') tr in_gen = (out2, None)"
    by blast+
  show "set out2 = set (filter (\<lambda>ti. cui ti \<in> set vs) in_gen) \<union>
        targets_of tr (\<Union>ti \<in> set (filter (\<lambda>ti. cui ti \<in> set vs) in_gen).
           set (children_of tr (cui ti)) \<union>
           (\<Union>child \<in> set (children_of tr (cui ti)). set (children_of tr child)))"
    using get_applicable_targets_hierarchical(2) [OF k r] by simp
qed

theorem hierarchical_filter_depth_witness:
  "one_from_input ''CUI_AND_CHILDREN'' (PDict [(''depth'', PInt 1), (''cui'', PList [''A''])]) =
     Inr (CUIWithChildFilter CUI_AND_CHILDREN (TypedFilter CUI_AND_CHILDREN [''A'']) 1 []) \<and>
   set [''C'', ''B''] = {''B'', ''C''} \<and> distinct [''C'', ''B''] \<and>
   (\<exists>out. get_applicable_targets (CUIWithChildFilter CUI_AND_CHILDREN (TypedFilter CUI_AND_CHILDREN [''A'']) 1 [])
       (abc_layer [''C'', ''B'']) (fst (all_targets (abc_layer [''C'', ''B'']))) = (out, None) \<and>
      mset out = {#\<lparr>cui = ''A'', val = ''a''\<rparr>, \<lparr>cui = ''B'', val = ''b''\<rparr>, \<lparr>cui = ''C'', val = ''c''\<rparr>#}) \<and>
   depth (CUIWithChildFilter CUI_AND_CHILDREN (TypedFilter CUI_AND_CHILDREN [''root'']) 2 []) = 2 \<and>
   get_children_of (CUIWithChildFilter CUI_AND_CHILDREN (TypedFilter CUI_AND_CHILDREN [''root'']) 2 [])
     three_level ''root'' 1 = ([\<lparr>cui = ''mid'', val = ''m''\<rparr>, \<lparr>cui = ''leaf'', val = ''l''\<rparr>], None) \<and>
   targets_of three_level (set (children_of three_level ''root'') \<union>
      (\<Union>child \<in> set (children_of three_level ''root''). set (children_of three_level child))) =
     {\<lparr>cui = ''mid'', val = ''m''\<rparr>, \<lparr>cui = ''leaf'', val = ''l''\<rparr>} \<and>
   get_applicable_targets (CUIWithChildFilter CUI_AND_CHILDREN (TypedFilter CUI_AND_CHILDREN [''root'']) 1 [])
       three_level (fst (all_targets three_level)) =
     ([\<lparr>cui = ''root'', val = ''r''\<rparr>, \<lparr>cui = ''mid'', val = ''m''\<rparr>], None) \<and>
   set [\<lparr>cui = ''root'', val = ''r''\<rparr>, \<lparr>cui = ''mid'', val = ''m''\<rparr>] =
     set (filter (\<lambda>ti. cui ti \<in> set [''root'']) (fst (all_targets three_level))) \<union>
     targets_of three_level
       (\<Union>ti \<in> set (filter (\<lambda>ti. cui ti \<in> set [''root'']) (fst (all_targets three_level))).
          set (children_of three_level (cui ti)))"
proof -
  have m: "FilterType_match_str ''CUI_AND_CHILDREN'' = Inr CUI_AND_CHILDREN"
    using FilterType_match_str_name [of CUI_AND_CHILDREN] by simp
  have c: "one_from_input ''CUI_AND_CHILDREN'' (PDict [(''depth'', PInt 1), (''cui'', PList [''A''])]) =
      Inr (CUIWithChildFilter CUI_AND_CHILDREN (TypedFilter CUI_AND_CHILDREN [''A'']) 1 [])"
    by (simp add: one_from_input_PDict [OF m] one_from_input_PList [OF m] dict_getitem_def
        CUIWithChildFilter_init_def)
  have g: "get_children_of (CUIWithChildFilter CUI_AND_CHILDREN (TypedFilter CUI_AND_CHILDREN [''root'']) 2 [])
     three_level ''root'' 1 = ([\<lparr>cui = ''mid'', val = ''m''\<rparr>, \<lparr>cui = ''leaf'', val = ''l''\<rparr>], None)"
    by code_simp
  have s: "set [''C'', ''B''] = {''B'', ''C''}" by auto
  note w = hierarchical_filter_depth [where
      f = "CUIWithChildFilter CUI_AND_CHILDREN (TypedFilter CUI_AND_CHILDREN [''A'']) 1 []"
      and ch = "[''C'', ''B'']"
      and self = "CUIWithChildFilter CUI_AND_CHILDREN (TypedFilter CUI_AND_CHILDREN [''root'']) 2 []"
      and tr = three_level and c = "''root''"
      and k = CUI_AND_CHILDREN and t = CUI_AND_CHILDREN and vs = "[''root'']" and vs' = "[]"
      and in_gen = "fst (all_targets three_level)"
      and ?out1.0 = "[\<lparr>cui = ''root'', val = ''r''\<rparr>, \<lparr>cui = ''mid'', val = ''m''\<rparr>]"]
  have d1: "get_applicable_targets (CUIWithChildFilter CUI_AND_CHILDREN (TypedFilter CUI_AND_CHILDREN [''root'']) 1 [])
       three_level (fst (all_targets three_level)) =
     ([\<lparr>cui = ''root'', val = ''r''\<rparr>, \<lparr>cui = ''mid'', val = ''m''\<rparr>], None)"
    using w by blast
  show ?thesis
    using w c g s d1
    by (simp del: get_applicable_targets.simps)
qed

subsection \<open>Missing entries during the expansion\<close>

lemma map_of_default_step:
  "map_of (if \<not> dict_contains d k then dict_setitem d k [] else d) c =
     (case map_of d c of Some ch \<Rightarrow> Some ch | None \<Rightarrow> if c = k then Some [] else None)"
  by (auto simp: dict_contains_def dict_setitem_def map_add_def split: option.splits)

lemma map_of_default_fold:
  "map_of (foldl (\<lambda>d k. if \<not> dict_contains d k then dict_setitem d k [] else d) d ks) c =
     (case map_of d c of Some ch \<Rightarrow> Some ch | None \<Rightarrow> if c \<in> set ks then Some [] else None)"
proof (induction ks arbitrary: d)
  case Nil
  show ?case by (simp split: option.splits)
next
  case (Cons k ks)
  show ?case
    unfolding foldl_Cons Cons.IH map_of_default_step
    by (auto split: option.splits)
qed

lemma TranslationLayer_init_children:
  "map_of (cui2children (TranslationLayer_init c2n n2c c2t c2c)) c =
     (case map_of c2c c of
        Some ch \<Rightarrow> Some ch
      | None \<Rightarrow> if map_of c2n c \<noteq> None then Some [] else None)"
  by (simp add: TranslationLayer_init_def map_of_default_fold map_of_eq_None_iff split: option.splits)

lemma TranslationLayer_init_names:
  "cui2names (TranslationLayer_init c2n n2c c2t c2c) = c2n"
  by (simp add: TranslationLayer_init_def)

lemma get_children_of_KeyError:
  "snd (get_children_of self tr c cur) = Some e \<Longrightarrow> \<exists>k. e = KeyError k"
proof (induction self tr c cur rule: get_children_of.induct)
  case (1 self tr c cur)
  show ?case
  proof (cases "map_of (cui2children tr) c")
    case None
    with "1.prems" show ?thesis by (subst (asm) get_children_of_unfold) auto
  next
    case (Some children)
    let ?body = "\<lambda>child. gen_then (targets_for tr child)
      (if cur < depth self then get_children_of self tr child (cur + 1) else ([], None))"
    have "get_children_of self tr c cur = gen_for children ?body"
      by (subst get_children_of_unfold) (simp add: Some)
    with "1.prems" obtain child where "snd (?body child) = Some e"
      using snd_gen_for_Some [of children ?body e] by auto
    then consider "snd (targets_for tr child) = Some e"
      | "cur < depth self" "snd (get_children_of self tr child (cur + 1)) = Some e"
      by (auto simp: snd_gen_then split: option.splits if_splits)
    then show ?thesis
    proof cases
      case 1
      then show ?thesis by (auto simp: snd_targets_for split: option.splits)
    next
      case 2
      have "dict_getitem (cui2children tr) c = Inr children" by (simp add: dict_getitem_def Some)
      from "1.IH" [OF this 2] show ?thesis .
    qed
  qed
qed

lemma get_children_of_ok_names:
  "snd (get_children_of self tr c cur) = None \<Longrightarrow>
     x \<in> descendants tr c (Suc (nat (depth self - cur))) \<Longrightarrow> map_of (cui2names tr) x \<noteq> None"
proof (induction self tr c cur arbitrary: x rule: get_children_of.induct)
  case (1 self tr c cur)
  from "1.prems"(1) obtain children where ch: "map_of (cui2children tr) c = Some children"
    by (subst (asm) get_children_of_unfold) (auto split: option.splits)
  let ?body = "\<lambda>child. gen_then (targets_for tr child)
      (if cur < depth self then get_children_of self tr child (cur + 1) else ([], None))"
  have eq: "get_children_of self tr c cur = gen_for children ?body"
    by (subst get_children_of_unfold) (simp add: ch)
  with "1.prems"(1) have ok: "\<forall>child \<in> set children. snd (?body child) = None"
    by (simp add: snd_gen_for_None)
  have co: "children_of tr c = children" by (simp add: children_of_def ch)
  have direct: "map_of (cui2names tr) y \<noteq> None" if "y \<in> set children" for y
    using ok that by (auto simp: snd_gen_then snd_targets_for split: option.splits)
  show ?case
  proof (cases "cur < depth self")
    case False
    then have "nat (depth self - cur) = 0" by simp
    with "1.prems"(2) have "x \<in> set children" by (simp add: co)
    then show ?thesis by (rule direct)
  next
    case True
    then have n: "nat (depth self - cur) = Suc (nat (depth self - (cur + 1)))" by simp
    from "1.prems"(2) consider "x \<in> set children"
      | child where "child \<in> set children" "x \<in> descendants tr child (Suc (nat (depth self - (cur + 1))))"
      unfolding n by (auto simp: co)
    then show ?thesis
    proof cases
      case 1
      then show ?thesis by (rule direct)
    next
      case 2
      from ok 2(1) True have r: "snd (get_children_of self tr child (cur + 1)) = None"
        by (auto simp: snd_gen_then split: option.splits)
      have "dict_getitem (cui2children tr) c = Inr children" by (simp add: dict_getitem_def ch)
      from "1.IH" [OF this True r 2(2)] show ?thesis .
    qed
  qed
qed

lemma get_children_of_stops:
  assumes "map_of (cui2children tr) c = Some (pre @ x # post)"
    and "\<forall>p \<in> set pre. map_of (cui2names tr) p \<noteq> None"
    and "map_of (cui2names tr) x = None"
    and "\<not> cur < depth self"
  shows "get_children_of self tr c cur =
     (concat (map (\<lambda>p. fst (targets_for tr p)) pre), Some (KeyError x))"
proof -
  let ?body = "\<lambda>child. gen_then (targets_for tr child) ([], None)"
  have eq: "get_children_of self tr c cur = gen_for (pre @ x # post) ?body"
    using assms(1,4) by (subst get_children_of_unfold) simp
  have "gen_for (ps @ x # post) ?body =
     (concat (map (\<lambda>p. fst (targets_for tr p)) ps), Some (KeyError x))"
    if "\<forall>p \<in> set ps. map_of (cui2names tr) p \<noteq> None" for ps
    using that assms(3)
    by (induction ps) (auto simp: gen_then_def targets_for_def dict_getitem_def split: option.splits)
  from this [OF assms(2)] eq show ?thesis by simp
qed

text \<open>
  Claim C10. In a translation layer as the constructor builds it, the expansion of \<open>c\<close>
  ends with a \<^verbatim>\<open>KeyError\<close> as soon as a concept within the depth bound below \<open>c\<close> has no
  entry in the names table or no entry in the children table; nothing skips such a
  concept. The error comes part-way: at the last level, the targets of the children
  listed before the first one without names have been yielded when it is raised. The
  empty set of children the constructor adds is for the concepts of the names table only:
  a concept without a children entry has no names entry either, and a concept in neither
  input table gets no entry.
\<close>

theorem get_children_of_missing_entry:
  assumes "tr = TranslationLayer_init c2n n2c c2t c2c"
  shows "(x \<in> descendants tr c (Suc (nat (depth self - cur))) \<and>
       (map_of (cui2names tr) x = None \<or> map_of (cui2children tr) x = None) \<longrightarrow>
       (\<exists>out k. get_children_of self tr c cur = (out, Some (KeyError k)))) \<and>
     (map_of (cui2children tr) c = Some (pre @ y # post) \<and>
       (\<forall>p \<in> set pre. map_of (cui2names tr) p \<noteq> None) \<and>
       map_of (cui2names tr) y = None \<and> \<not> cur < depth self \<longrightarrow>
       get_children_of self tr c cur =
         (concat (map (\<lambda>p. fst (targets_for tr p)) pre), Some (KeyError y))) \<and>
     (map_of (cui2children tr) z = None \<longrightarrow> map_of (cui2names tr) z = None) \<and>
     (map_of c2c z = None \<and> map_of c2n z = None \<longrightarrow> map_of (cui2children tr) z = None)"
proof (intro conjI impI)
  have cover: "map_of (cui2names tr) u = None" if "map_of (cui2children tr) u = None" for u
    using that unfolding assms TranslationLayer_init_names TranslationLayer_init_children
    by (auto split: option.splits if_splits)
  show "map_of (cui2names tr) z = None" if "map_of (cui2children tr) z = None"
    using that by (rule cover)
  show "map_of (cui2children tr) z = None" if "map_of c2c z = None \<and> map_of c2n z = None"
    using that unfolding assms TranslationLayer_init_children by simp
  show "\<exists>out k. get_children_of self tr c cur = (out, Some (KeyError k))"
    if h: "x \<in> descendants tr c (Suc (nat (depth self - cur))) \<and>
       (map_of (cui2names tr) x = None \<or> map_of (cui2children tr) x = None)"
  proof -
    from h cover have nx: "map_of (cui2names tr) x = None" by blast
    have "snd (get_children_of self tr c cur) \<noteq> None"
    proof
      assume "snd (get_children_of self tr c cur) = None"
      from get_children_of_ok_names [OF this] h have "map_of (cui2names tr) x \<noteq> None" by blast
      with nx show False by simp
    qed
    then obtain e where e: "snd (get_children_of self tr c cur) = Some e" by blast
    from get_children_of_KeyError [OF this] obtain k where "e = KeyError k" by blast
    with e show ?thesis by (cases "get_children_of self tr c cur") auto
  qed
  show "get_children_of self tr c cur =
         (concat (map (\<lambda>p. fst (targets_for tr p)) pre), Some (KeyError y))"
    if "map_of (cui2children tr) c = Some (pre @ y # post) \<and>
       (\<forall>p \<in> set pre. map_of (cui2names tr) p \<noteq> None) \<and>
       map_of (cui2names tr) y = None \<and> \<not> cur < depth self"
    using that by (intro get_children_of_stops) simp_all
qed

theorem get_children_of_missing_entry_witness:
  "dangling_layer = TranslationLayer_init [(''A'', [''a'']), (''B'', [''b''])] [] [] [(''A'', [''B'', ''X''])] \<and>
   ''X'' \<in> descendants dangling_layer ''A'' (Suc (nat (1 - 1))) \<and>
   map_of (cui2names dangling_layer) ''X'' = None \<and>
   map_of (cui2children dangling_layer) ''X'' = None \<and>
   map_of (cui2children dangling_layer) ''A'' = Some ([''B''] @ ''X'' # []) \<and>
   map_of (cui2names dangling_layer) ''B'' \<noteq> None \<and>
   get_children_of (CUIWithChildFilter CUI_AND_CHILDREN (TypedFilter CUI_AND_CHILDREN [''A'']) 1 [])
     dangling_layer ''A'' 1 = ([\<lparr>cui = ''B'', val = ''b''\<rparr>], Some (KeyError ''X''))"
proof -
  have n: "cui2names dangling_layer = [(''A'', [''a'']), (''B'', [''b''])]"
    by (simp add: dangling_layer_def TranslationLayer_init_def)
  have ch: "cui2children dangling_layer = [(''A'', [''B'', ''X'']), (''B'', [])]"
    by (simp add: dangling_layer_def TranslationLayer_init_def dict_contains_def dict_setitem_def)
  show ?thesis
    using get_children_of_missing_entry [OF dangling_layer_def, of "''X''" "''A''"
        "CUIWithChildFilter CUI_AND_CHILDREN (TypedFilter CUI_AND_CHILDREN [''A'']) 1 []" 1
        "[''B'']" "''X''" "[]" "''X''"]
    by (simp add: n ch children_of_def targets_for_def dict_getitem_def TargetInfo_init_def
        dangling_layer_def [symmetric])
qed

subsection \<open>Equality of \<^verbatim>\<open>TargetInfo\<close> instances\<close>

text \<open>
  Claim C3, as the spec states it, makes two instances with the same concept id and the
  same name equal. Two instances created one after the other with the same fields are two
  objects, and the class compares objects by identity.
\<close>

theorem TargetInfo_eq_fields_counterexample:
  "(case TargetInfo_new [] ''C1'' ''fever'' of
      (r1, h1) \<Rightarrow>
        (case TargetInfo_new h1 ''C1'' ''fever'' of
           (r2, h2) \<Rightarrow>
             cui (deref h2 r1) = cui (deref h2 r2) \<and> val (deref h2 r1) = val (deref h2 r2) \<and>
             \<not> TargetInfo_eq r1 r2))"
  by (simp add: TargetInfo_new_def deref_def TargetInfo_eq_def TargetInfo_init_def)

text \<open>
  Claim C3, amended. Two \<^verbatim>\<open>TargetInfo\<close> instances are equal exactly when they are the same
  object. Equal instances have the same concept id and the same name; two instances
  created by two calls of the constructor are not equal, whatever their fields, and each
  keeps the fields it was created with.
\<close>

theorem TargetInfo_eq_identity:
  "(TargetInfo_eq r1 r2 \<longleftrightarrow> r1 = r2) \<and>
   (TargetInfo_eq r1 r2 \<longrightarrow>
      cui (deref h r1) = cui (deref h r2) \<and> val (deref h r1) = val (deref h r2)) \<and>
   (TargetInfo_new h c v = (a, h1) \<and> TargetInfo_new h1 c' v' = (b, h2) \<longrightarrow>
      \<not> TargetInfo_eq a b \<and>
      deref h2 a = \<lparr>cui = c, val = v\<rparr> \<and> deref h2 b = \<lparr>cui = c', val = v'\<rparr>)"
proof (intro conjI impI)
  show "TargetInfo_eq r1 r2 \<longleftrightarrow> r1 = r2"
    by (simp add: TargetInfo_eq_def)
  show "cui (deref h r1) = cui (deref h r2)" if "TargetInfo_eq r1 r2"
    using that by (simp add: TargetInfo_eq_def)
  show "val (deref h r1) = val (deref h r2)" if "TargetInfo_eq r1 r2"
    using that by (simp add: TargetInfo_eq_def)
next
  assume n: "TargetInfo_new h c v = (a, h1) \<and> TargetInfo_new h1 c' v' = (b, h2)"
  then have a: "a = length h" and h1: "h1 = h @ [TargetInfo_init c v]"
    and b: "b = Suc (length h)" and h2: "h2 = h @ [TargetInfo_init c v, TargetInfo_init c' v']"
    by (auto simp: TargetInfo_new_def)
  show "\<not> TargetInfo_eq a b"
    by (simp add: a b TargetInfo_eq_def)
  show "deref h2 a = \<lparr>cui = c, val = v\<rparr>"
    by (simp add: a h2 deref_def TargetInfo_init_def)
  show "deref h2 b = \<lparr>cui = c', val = v'\<rparr>"
    by (simp add: b h2 deref_def TargetInfo_init_def nth_append)
qed

theorem TargetInfo_eq_identity_witness:
  "TargetInfo_eq 0 0 \<and>
   TargetInfo_new [] ''C1'' ''fever'' = (0, [\<lparr>cui = ''C1'', val = ''fever''\<rparr>]) \<and>
   TargetInfo_new [\<lparr>cui = ''C1'', val = ''fever''\<rparr>] ''C1'' ''fever'' =
     (1, [\<lparr>cui = ''C1'', val = ''fever''\<rparr>, \<lparr>cui = ''C1'', val = ''fever''\<rparr>]) \<and>
   \<not> TargetInfo_eq 0 1 \<and>
   deref [\<lparr>cui = ''C1'', val = ''fever''\<rparr>, \<lparr>cui = ''C1'', val = ''fever''\<rparr>] 0 = \<lparr>cui = ''C1'', val = ''fever''\<rparr> \<and>
   deref [\<lparr>cui = ''C1'', val = ''fever''\<rparr>, \<lparr>cui = ''C1'', val = ''fever''\<rparr>] 1 = \<lparr>cui = ''C1'', val = ''fever''\<rparr>"
  using TargetInfo_eq_identity [of 0 0 "[]" "''C1''" "''fever''" 0
      "[\<lparr>cui = ''C1'', val = ''fever''\<rparr>]" "''C1''" "''fever''" 1
      "[\<lparr>cui = ''C1'', val = ''fever''\<rparr>, \<lparr>cui = ''C1'', val = ''fever''\<rparr>]"]
  by (simp add: TargetInfo_new_def TargetInfo_init_def)

end
